theory Spec2Isabelle
  imports Main "HOL-Library.AList" "HOL-Library.Sublist"
begin

section \<open>Session transport manager (HTTP entry point)\<close>

text \<open>
  The HTTP entry point keeps two module-level JavaScript \<open>Map\<close>s,
  \<open>transports\<close> and \<open>sessionLastAccess\<close>. A \<open>Map\<close> is insertion ordered with unique
  keys; it is embedded as an association list: \<open>Map.set\<close> is \<open>AList.update\<close>
  (overwrite in place, append when new), \<open>Map.delete\<close> is \<open>AList.delete\<close>,
  \<open>Map.get\<close> is \<open>map_of\<close>, \<open>Map.has\<close> is \<open>map_of \<dots> \<noteq> None\<close> and \<open>Map.size\<close> is \<open>length\<close>.
  \<open>Date.now()\<close> is an integer number of milliseconds.
\<close>

type_synonym session_id = string

text \<open>
  A \<open>StreamableHTTPServerTransport\<close> object. The only property the entry point reads is
  \<open>transport.sessionId\<close>, which the SDK sets when the transport handles an initialize
  message.
\<close>

datatype transport = Transport (sessionId: "session_id option")

record server_state =
  transports :: "(session_id \<times> transport) list"
  sessionLastAccess :: "(session_id \<times> int) list"
  closedTransports :: "transport list"

text \<open>\<open>closedTransports\<close> logs every transport on which \<open>close()\<close> has been called.\<close>

definition MAX_SESSIONS :: nat where
  "MAX_SESSIONS = 1000"

definition SESSION_TTL_MS :: int where
  "SESSION_TTL_MS = 30 * 60 * 1000"

definition map_has :: "('k \<times> 'v) list \<Rightarrow> 'k \<Rightarrow> bool" where
  "map_has m k \<longleftrightarrow> map_of m k \<noteq> None"

subsection \<open>Session id format\<close>

text \<open>
  \<open>UUID_RE = /^[0-9a-f]{8}-[0-9a-f]{4}-4[0-9a-f]{3}-[89ab][0-9a-f]{3}-[0-9a-f]{12}$/i\<close>.
  The expression is anchored at both ends and every atom consumes exactly one character,
  so it is a list of character classes matched position by position. The \<open>i\<close> flag makes
  the letter classes case insensitive.
\<close>

datatype char_class = Hex | Lit char | Variant

definition is_hex :: "char \<Rightarrow> bool" where
  "is_hex c \<longleftrightarrow> c \<in> set ''0123456789abcdefABCDEF''"

fun class_matches :: "char_class \<Rightarrow> char \<Rightarrow> bool" where
  "class_matches Hex c = is_hex c"
| "class_matches (Lit l) c = (c = l)"
| "class_matches Variant c = (c \<in> set ''89abAB'')"

definition UUID_RE :: "char_class list" where
  "UUID_RE =
     replicate 8 Hex @ [Lit CHR ''-''] @ replicate 4 Hex @ [Lit CHR ''-''] @
     [Lit CHR ''4''] @ replicate 3 Hex @ [Lit CHR ''-''] @
     [Variant] @ replicate 3 Hex @ [Lit CHR ''-''] @ replicate 12 Hex"

definition isValidSessionId :: "string \<Rightarrow> bool" where
  "isValidSessionId sid \<longleftrightarrow> list_all2 class_matches UUID_RE sid"

text \<open>
  JavaScript truthiness of \<open>req.headers['mcp-session-id']\<close> (a \<open>string | undefined\<close>):
  \<open>undefined\<close> and the empty string are falsy.
\<close>

fun truthy :: "string option \<Rightarrow> bool" where
  "truthy None = False"
| "truthy (Some s) = (s \<noteq> [])"

text \<open>The cast \<open>as string\<close> where the value is used as a map key.\<close>

fun as_string :: "string option \<Rightarrow> string" where
  "as_string None = []"
| "as_string (Some s) = s"

subsection \<open>Transport callbacks\<close>

text \<open>
  \<open>onsessioninitialized\<close> (set in the transport's constructor options): registers the
  transport under the new session id and stamps it with \<open>Date.now()\<close>.
\<close>

definition onsessioninitialized ::
  "transport \<Rightarrow> session_id \<Rightarrow> int \<Rightarrow> server_state \<Rightarrow> server_state" where
  "onsessioninitialized transport newSessionId now s =
     s\<lparr>transports := AList.update newSessionId transport (transports s),
       sessionLastAccess := AList.update newSessionId now (sessionLastAccess s)\<rparr>"

text \<open>\<open>transport.onclose\<close>: removes the transport's own session id from both maps.\<close>

definition onclose :: "transport \<Rightarrow> server_state \<Rightarrow> server_state" where
  "onclose transport s =
     (if truthy (sessionId transport)
      then (case sessionId transport of
              None \<Rightarrow> s
            | Some sid \<Rightarrow>
                s\<lparr>transports := AList.delete sid (transports s),
                  sessionLastAccess := AList.delete sid (sessionLastAccess s)\<rparr>)
      else s)"

text \<open>
  \<open>transport.close()\<close>: the SDK transport releases its streams and then invokes its
  \<open>onclose\<close> callback (the contract of the SDK's \<open>Transport\<close> interface).
\<close>

definition close_transport :: "transport \<Rightarrow> server_state \<Rightarrow> server_state" where
  "close_transport transport s =
     onclose transport (s\<lparr>closedTransports := transport # closedTransports s\<rparr>)"

subsection \<open>Stale session eviction\<close>

text \<open>
  \<open>for (const [sid, lastAccess] of sessionLastAccess)\<close> iterates a live \<open>Map\<close>: an entry
  that was deleted before the iterator reached it is not visited. Nothing is inserted
  during the sweep, so the loop walks the entries present at its start and skips those
  no longer in the map.
\<close>

definition evict_entry :: "session_id \<Rightarrow> server_state \<Rightarrow> server_state" where
  "evict_entry sid s =
     (let s1 = (case map_of (transports s) sid of
                  None \<Rightarrow> s
                | Some transport \<Rightarrow>
                    (let s' = close_transport transport s
                     in s'\<lparr>transports := AList.delete sid (transports s')\<rparr>))
      in s1\<lparr>sessionLastAccess := AList.delete sid (sessionLastAccess s1)\<rparr>)"

fun evict_loop :: "int \<Rightarrow> (session_id \<times> int) list \<Rightarrow> server_state \<Rightarrow> server_state" where
  "evict_loop cutoff [] s = s"
| "evict_loop cutoff ((sid, lastAccess) # rest) s =
     (if \<not> map_has (sessionLastAccess s) sid then evict_loop cutoff rest s
      else if lastAccess < cutoff then evict_loop cutoff rest (evict_entry sid s)
      else evict_loop cutoff rest s)"

definition evictStaleSessions :: "int \<Rightarrow> server_state \<Rightarrow> server_state" where
  "evictStaleSessions now s =
     (let cutoff = now - SESSION_TTL_MS in evict_loop cutoff (sessionLastAccess s) s)"

subsection \<open>Requests, responses and the SDK's behaviour\<close>

text \<open>
  Of a request the handlers read the \<open>mcp-session-id\<close> header, the \<open>Authorization\<close>
  header and whether the SDK predicate \<open>isInitializeRequest(req.body)\<close> holds.
\<close>

record request =
  mcpSessionId :: "string option"
  authorization :: "string option"
  isInitializeRequest :: bool

datatype response =
    JsonRpcError nat int string
  | PlainText nat string
  | FromTransport nat
  | Uncaught

fun status_of :: "response \<Rightarrow> nat option" where
  "status_of (JsonRpcError st _ _) = Some st"
| "status_of (PlainText st _) = Some st"
| "status_of (FromTransport st) = Some st"
| "status_of Uncaught = None"

fun message_of :: "response \<Rightarrow> string" where
  "message_of (JsonRpcError _ _ m) = m"
| "message_of (PlainText _ m) = m"
| "message_of (FromTransport _) = []"
| "message_of Uncaught = []"

text \<open>
  What one call of \<open>transport.handleRequest\<close> did, as far as the entry point can observe
  it: whether the transport closed itself (firing \<open>onclose\<close>), whether the call threw,
  and the status of the response it wrote, if it wrote one (\<open>res.headersSent\<close>).
\<close>

record handled =
  didClose :: bool
  threw :: bool
  sent :: "nat option"

text \<open>
  What happens on the new-session path after the cap check: the first call that throws,
  or \<open>transport.handleRequest\<close> runs. In the latter case the SDK may generate a session
  id, store it in \<open>transport.sessionId\<close> and call \<open>onsessioninitialized\<close> with it, once
  per transport; the integer is \<open>Date.now()\<close> inside that callback.
\<close>

datatype creation =
    TransportConstructorThrows
  | CreateServerThrows
  | ConnectThrows
  | HandleRequest "(session_id \<times> int) option" handled

record env =
  dateNow :: int
  delegate :: handled
  newSession :: creation

definition internalError :: response where
  "internalError = JsonRpcError 500 (- 32603) ''Internal server error''"

text \<open>
  The \<open>catch\<close> block of the POST handler answers 500 unless headers were already sent;
  without an exception the response is the one the transport wrote.
\<close>

definition post_reply :: "handled \<Rightarrow> response option" where
  "post_reply h =
     (if threw h \<and> sent h = None then Some internalError
      else map_option FromTransport (sent h))"

text \<open>GET and DELETE have no \<open>try\<close>: an exception leaves the handler.\<close>

definition plain_reply :: "handled \<Rightarrow> response option" where
  "plain_reply h =
     (if threw h then Some Uncaught else map_option FromTransport (sent h))"

definition createSession :: "creation \<Rightarrow> server_state \<Rightarrow> response option \<times> server_state" where
  "createSession c s =
     (case c of
        TransportConstructorThrows \<Rightarrow> (Some internalError, s)
      | CreateServerThrows \<Rightarrow> (Some internalError, s)
      | ConnectThrows \<Rightarrow> (Some internalError, s)
      | HandleRequest init h \<Rightarrow>
          (let transport = Transport (map_option fst init);
               s1 = (case init of
                       None \<Rightarrow> s
                     | Some (newSessionId, now) \<Rightarrow>
                         onsessioninitialized transport newSessionId now s);
               s2 = (if didClose h then close_transport transport s1 else s1)
           in (post_reply h, s2)))"

subsection \<open>POST /mcp\<close>

definition post_mcp :: "request \<Rightarrow> env \<Rightarrow> server_state \<Rightarrow> response option \<times> server_state" where
  "post_mcp req e s =
     (let sessionId = mcpSessionId req in
      if truthy sessionId \<and> \<not> isValidSessionId (as_string sessionId)
      then (Some (JsonRpcError 400 (- 32000) ''Bad Request: Invalid session ID format''), s)
      else if truthy sessionId \<and> map_has (transports s) (as_string sessionId)
      then (let sid = as_string sessionId;
                s1 = s\<lparr>sessionLastAccess := AList.update sid (dateNow e) (sessionLastAccess s)\<rparr>
            in (case map_of (transports s1) sid of
                  None \<Rightarrow> (Some internalError, s1)
                | Some transport \<Rightarrow>
                    (post_reply (delegate e),
                     if didClose (delegate e) then close_transport transport s1 else s1)))
      else if \<not> isInitializeRequest req
      then (Some (JsonRpcError 400 (- 32000) ''Bad Request: No valid session ID provided''), s)
      else if length (transports s) \<ge> MAX_SESSIONS
      then (let s1 = evictStaleSessions (dateNow e) s in
            if length (transports s1) \<ge> MAX_SESSIONS
            then (Some (JsonRpcError 503 (- 32000) ''Server busy: too many active sessions''), s1)
            else createSession (newSession e) s1)
      else createSession (newSession e) s)"

subsection \<open>GET /mcp and DELETE /mcp\<close>

definition get_mcp :: "request \<Rightarrow> env \<Rightarrow> server_state \<Rightarrow> response option \<times> server_state" where
  "get_mcp req e s =
     (let sessionId = mcpSessionId req in
      if \<not> truthy sessionId \<or> \<not> isValidSessionId (as_string sessionId) \<or>
         \<not> map_has (transports s) (as_string sessionId)
      then (Some (PlainText 400 ''Invalid or missing session ID''), s)
      else (let sid = as_string sessionId;
                s1 = s\<lparr>sessionLastAccess := AList.update sid (dateNow e) (sessionLastAccess s)\<rparr>
            in (case map_of (transports s1) sid of
                  None \<Rightarrow> (Some Uncaught, s1)
                | Some transport \<Rightarrow>
                    (plain_reply (delegate e),
                     if didClose (delegate e) then close_transport transport s1 else s1))))"

definition delete_mcp :: "request \<Rightarrow> env \<Rightarrow> server_state \<Rightarrow> response option \<times> server_state" where
  "delete_mcp req e s =
     (let sessionId = mcpSessionId req in
      if \<not> truthy sessionId \<or> \<not> isValidSessionId (as_string sessionId) \<or>
         \<not> map_has (transports s) (as_string sessionId)
      then (Some (PlainText 400 ''Invalid or missing session ID''), s)
      else (let sid = as_string sessionId;
                s1 = s\<lparr>sessionLastAccess := AList.delete sid (sessionLastAccess s)\<rparr>
            in (case map_of (transports s1) sid of
                  None \<Rightarrow> (Some Uncaught, s1)
                | Some transport \<Rightarrow>
                    (plain_reply (delegate e),
                     if didClose (delegate e) then close_transport transport s1 else s1))))"

subsection \<open>Graceful shutdown\<close>

text \<open>
  \<open>for (const [sid, transport] of transports)\<close>, again over a live \<open>Map\<close> whose entries
  are deleted while it is iterated.
\<close>

fun shutdown_loop :: "(session_id \<times> transport) list \<Rightarrow> server_state \<Rightarrow> server_state" where
  "shutdown_loop [] s = s"
| "shutdown_loop ((sid, transport) # rest) s =
     (if \<not> map_has (transports s) sid then shutdown_loop rest s
      else (let s1 = close_transport transport s
            in shutdown_loop rest
                 (s1\<lparr>transports := AList.delete sid (transports s1),
                     sessionLastAccess := AList.delete sid (sessionLastAccess s1)\<rparr>)))"

definition gracefulShutdown :: "server_state \<Rightarrow> server_state" where
  "gracefulShutdown s = shutdown_loop (transports s) s"

section \<open>Bearer authentication\<close>

record auth_info =
  token :: string
  clientId :: string
  scopes :: "string list"
  expiresAt :: int

text \<open>
  The session object that better-auth's \<open>getMcpSession\<close> resolves to. \<open>session_scopes\<close> is
  \<open>Some\<close> when \<open>typeof session.scopes === 'string'\<close>; \<open>accessTokenExpiresAt\<close> is the
  time in milliseconds of the stored date, \<open>None\<close> when the field is falsy.
\<close>

record mcp_session =
  session_clientId :: string
  session_scopes :: "string option"
  accessTokenExpiresAt :: "int option"

text \<open>
  A call either throws or returns. A thrown \<open>Error\<close> carries its message; \<open>Throws None\<close>
  is a thrown value that is not an \<open>Error\<close>.
\<close>

datatype 'a attempt = Throws "string option" | Returns 'a

record auth_env =
  authInitialized :: bool
  getMcpSession :: "string \<Rightarrow> mcp_session option attempt"
  authNow :: int

fun split_on :: "char \<Rightarrow> string \<Rightarrow> string list" where
  "split_on c [] = [[]]"
| "split_on c (x # xs) =
     (if x = c then [] # split_on c xs
      else (case split_on c xs of
              [] \<Rightarrow> [[x]]
            | w # ws \<Rightarrow> (x # w) # ws))"

fun join :: "string \<Rightarrow> string list \<Rightarrow> string" where
  "join sep [] = []"
| "join sep [x] = x"
| "join sep (x # y # ys) = x @ sep @ join sep (y # ys)"

definition verifyAccessToken :: "auth_env \<Rightarrow> string \<Rightarrow> auth_info attempt" where
  "verifyAccessToken a tok =
     (if \<not> authInitialized a
      then Throws (Some ''Auth not initialized. Call mountAuthRoutes first.'')
      else (case getMcpSession a tok of
              Throws err \<Rightarrow> Throws err
            | Returns None \<Rightarrow> Throws (Some ''Invalid token'')
            | Returns (Some session) \<Rightarrow>
                Returns
                  \<lparr>token = tok,
                   clientId = session_clientId session,
                   scopes = (case session_scopes session of
                               Some sc \<Rightarrow> split_on CHR '' '' sc
                             | None \<Rightarrow> [''openid'']),
                   expiresAt = (case accessTokenExpiresAt session of
                                  Some ms \<Rightarrow> ms div 1000
                                | None \<Rightarrow> authNow a div 1000 + 3600)\<rparr>))"

text \<open>
  The options of \<open>requireBearerAuth\<close>. \<open>resourceMetadataUrl\<close> holds the serialisation
  \<open>url.toString()\<close> of the configured \<open>URL\<close> object, \<open>None\<close> when the option is absent.
\<close>

record bearer_options =
  requiredScopes :: "string list"
  resourceMetadataUrl :: "string option"

definition dquote :: string where
  "dquote = [CHR 0x22]"

definition buildWwwAuth :: "bearer_options \<Rightarrow> string \<Rightarrow> string \<Rightarrow> string" where
  "buildWwwAuth opts code message =
     (let header = ''Bearer error='' @ dquote @ code @ dquote @
                   '', error_description='' @ dquote @ message @ dquote;
          header1 = (if length (requiredScopes opts) > 0
                     then header @ '', scope='' @ dquote @
                          join '' '' (requiredScopes opts) @ dquote
                     else header)
      in (case resourceMetadataUrl opts of
            Some url \<Rightarrow> header1 @ '', resource_metadata='' @ dquote @ url @ dquote
          | None \<Rightarrow> header1))"

text \<open>
  The middleware either answers itself (status, \<open>WWW-Authenticate\<close> header, \<open>error\<close> and
  \<open>error_description\<close> of the JSON body) or calls \<open>next()\<close>. \<open>req.app.locals\<close> is the
  \<open>locals\<close> object of the Express application, one object for the whole process; every
  request's \<open>req.app\<close> refers to it.
\<close>

datatype middleware_result = Rejected nat string string string | Next

record app_locals =
  locals_auth :: "auth_info option"

definition startsWithBearer :: "string option \<Rightarrow> bool" where
  "startsWithBearer authHeader =
     (case authHeader of None \<Rightarrow> False | Some h \<Rightarrow> prefix ''Bearer '' h)"

definition requireBearerAuth ::
  "bearer_options \<Rightarrow> auth_env \<Rightarrow> request \<Rightarrow> app_locals \<Rightarrow> middleware_result \<times> app_locals" where
  "requireBearerAuth opts a req locals =
     (let authHeader = authorization req in
      if \<not> startsWithBearer authHeader
      then (Rejected 401 (buildWwwAuth opts ''invalid_token'' ''Missing Authorization header'')
              ''invalid_token'' ''Missing Authorization header'', locals)
      else (case verifyAccessToken a (drop 7 (as_string authHeader)) of
              Returns authInfo \<Rightarrow>
                if length (requiredScopes opts) > 0 \<and>
                   \<not> list_all (\<lambda>sc. sc \<in> set (scopes authInfo)) (requiredScopes opts)
                then (Rejected 403
                        (buildWwwAuth opts ''insufficient_scope''
                           (''Required: '' @ join '', '' (requiredScopes opts)))
                        ''insufficient_scope''
                        (''Required scopes: '' @ join '', '' (requiredScopes opts)), locals)
                else (Next, locals\<lparr>locals_auth := Some authInfo\<rparr>)
            | Throws err \<Rightarrow>
                (let msg = (case err of Some m \<Rightarrow> m | None \<Rightarrow> ''Invalid token'')
                 in (Rejected 401 (buildWwwAuth opts ''invalid_token'' msg)
                       ''invalid_token'' msg, locals))))"

text \<open>
  What a downstream handler of request \<open>req\<close> reads as \<open>req.app.locals.auth\<close>: the
  request carries no auth property of its own.
\<close>

definition auth_seen_by :: "request \<Rightarrow> app_locals \<Rightarrow> auth_info option" where
  "auth_seen_by req locals = locals_auth locals"

text \<open>
  The middleware instance protecting \<open>/mcp\<close>. \<open>href\<close> stands for the platform's
  \<open>new URL(s).toString()\<close>.
\<close>

definition authMiddleware_options :: "(string \<Rightarrow> string) \<Rightarrow> string \<Rightarrow> bearer_options" where
  "authMiddleware_options href SERVER_URL =
     \<lparr>requiredScopes = [],
      resourceMetadataUrl = Some (href (SERVER_URL @ ''/.well-known/oauth-protected-resource/mcp''))\<rparr>"

definition authMiddleware ::
  "(string \<Rightarrow> string) \<Rightarrow> string \<Rightarrow> auth_env \<Rightarrow> request \<Rightarrow> app_locals \<Rightarrow>
   middleware_result \<times> app_locals" where
  "authMiddleware href SERVER_URL = requireBearerAuth (authMiddleware_options href SERVER_URL)"

section \<open>Route table\<close>

text \<open>
  The Express application as the list of its routes in registration order. A request is
  handled by the first route whose method and path match; the route's handlers run in
  order until one of them answers. The third-party handlers (rate limiters, \<open>cors()\<close>,
  the better-auth handlers) are opaque objects: what such an object answers is a
  parameter of \<open>serve\<close>.
\<close>

datatype http_method = GET | POST | DELETE | OPTIONS

datatype route_method = Only http_method | AnyMethod

text \<open>
  \<open>Exact p\<close> is a literal path; \<open>Splat p\<close> is \<open>p/{*splat}\<close>, the path \<open>p\<close> followed by an
  optional wildcard.
\<close>

datatype path_pattern = Exact string | Splat string

datatype handler =
    AuthLimiter | SignInLimiter | BetterAuthApi | Cors | AsMetadataHandler
  | PrmHandler | SignInPage | Health | BearerAuth | McpPost | McpGet | McpDelete

type_synonym route = "route_method \<times> path_pattern \<times> handler list"

definition app_all :: "path_pattern \<Rightarrow> handler list \<Rightarrow> route list \<Rightarrow> route list" where
  "app_all pat hs app = app @ [(AnyMethod, pat, hs)]"

definition app_route :: "http_method \<Rightarrow> string \<Rightarrow> handler list \<Rightarrow> route list \<Rightarrow> route list" where
  "app_route m path hs app = app @ [(Only m, Exact path, hs)]"

text \<open>
  The body of \<open>mountAuthRoutes\<close> as far as it registers routes; the loop over the two
  protected-resource-metadata paths registers the one \<open>prmHandler\<close> object under each.
\<close>

definition mountAuthRoutes :: "route list \<Rightarrow> route list" where
  "mountAuthRoutes app =
     (let app1 = app_all (Splat ''/api/auth'') [AuthLimiter, BetterAuthApi] app;
          app2 = app_route OPTIONS ''/.well-known/oauth-authorization-server'' [Cors] app1;
          app3 = app_route GET ''/.well-known/oauth-authorization-server''
                   [Cors, AsMetadataHandler] app2;
          prmHandler = PrmHandler;
          app4 = foldl (\<lambda>a prmPath.
                          app_route GET prmPath [Cors, prmHandler]
                            (app_route OPTIONS prmPath [Cors] a))
                   app3
                   [''/.well-known/oauth-protected-resource/mcp'',
                    ''/.well-known/oauth-protected-resource'']
      in app_route GET ''/sign-in'' [SignInLimiter, SignInPage] app4)"

text \<open>The routes of the HTTP entry point, in the order the module registers them.\<close>

definition http_app :: "route list" where
  "http_app =
     app_route DELETE ''/mcp'' [BearerAuth, McpDelete]
       (app_route GET ''/mcp'' [BearerAuth, McpGet]
          (app_route POST ''/mcp'' [BearerAuth, McpPost]
             (app_route GET ''/health'' [Health]
                (mountAuthRoutes []))))"

fun method_matches :: "route_method \<Rightarrow> http_method \<Rightarrow> bool" where
  "method_matches AnyMethod m = True"
| "method_matches (Only m') m = (m' = m)"

fun pattern_matches :: "path_pattern \<Rightarrow> string \<Rightarrow> bool" where
  "pattern_matches (Exact p) path = (path = p)"
| "pattern_matches (Splat p) path = (path = p \<or> prefix (p @ ''/'') path)"

definition find_route :: "route list \<Rightarrow> http_method \<Rightarrow> string \<Rightarrow> route option" where
  "find_route app m path =
     List.find (\<lambda>(rm, pat, hs). method_matches rm m \<and> pattern_matches pat path) app"

text \<open>\<open>answer h = None\<close>: handler \<open>h\<close> calls \<open>next()\<close>.\<close>

fun run_chain :: "(handler \<Rightarrow> 'r option) \<Rightarrow> handler list \<Rightarrow> 'r option" where
  "run_chain answer [] = None"
| "run_chain answer (h # hs) =
     (case answer h of Some r \<Rightarrow> Some r | None \<Rightarrow> run_chain answer hs)"

definition serve :: "(handler \<Rightarrow> 'r option) \<Rightarrow> route list \<Rightarrow> http_method \<Rightarrow> string \<Rightarrow> 'r option" where
  "serve answer app m path =
     (case find_route app m path of
        None \<Rightarrow> None
      | Some (rm, pat, hs) \<Rightarrow> run_chain answer hs)"

section \<open>Properties stated about the model\<close>

text \<open>
  A state is well formed when both maps have unique keys, as a \<open>Map\<close> has, and every
  transport is registered under its own session id, as \<open>onsessioninitialized\<close> registers
  it. \<open>same_keys\<close> says that the two maps hold the same session ids.
\<close>

definition wf_state :: "server_state \<Rightarrow> bool" where
  "wf_state s \<longleftrightarrow>
     distinct (map fst (transports s)) \<and>
     distinct (map fst (sessionLastAccess s)) \<and>
     list_all (\<lambda>(sid, transport). sessionId transport = Some sid) (transports s)"

definition same_keys :: "server_state \<Rightarrow> bool" where
  "same_keys s \<longleftrightarrow> set (map fst (transports s)) = set (map fst (sessionLastAccess s))"

text \<open>
  The states the running server can be in: it starts with empty maps, and every request
  and every sweep takes it from one state to the next.
\<close>

inductive reachable :: "server_state \<Rightarrow> bool" where
  start: "reachable \<lparr>transports = [], sessionLastAccess = [], closedTransports = []\<rparr>"
| post: "reachable s \<Longrightarrow> reachable (snd (post_mcp req e s))"
| get: "reachable s \<Longrightarrow> reachable (snd (get_mcp req e s))"
| delete: "reachable s \<Longrightarrow> reachable (snd (delete_mcp req e s))"
| sweep: "reachable s \<Longrightarrow> reachable (evictStaleSessions now s)"

text \<open>
  A POST that reaches the session cap: an initialize message whose session id header is
  absent or empty, or is well formed but unknown.
\<close>

definition new_session_request :: "request \<Rightarrow> server_state \<Rightarrow> bool" where
  "new_session_request req s \<longleftrightarrow>
     isInitializeRequest req \<and>
     (\<not> truthy (mcpSessionId req) \<or>
      (isValidSessionId (as_string (mcpSessionId req)) \<and>
       \<not> map_has (transports s) (as_string (mcpSessionId req))))"

definition serverBusy :: response where
  "serverBusy = JsonRpcError 503 (- 32000) ''Server busy: too many active sessions''"

subsection \<open>Concrete inputs\<close>

definition sid1 :: session_id where
  "sid1 = ''123e4567-e89b-42d3-a456-426614174000''"

definition sid2 :: session_id where
  "sid2 = ''9b2e4567-e89b-42d3-8456-426614174001''"

definition empty_state :: server_state where
  "empty_state = \<lparr>transports = [], sessionLastAccess = [], closedTransports = []\<rparr>"

definition one_session :: server_state where
  "one_session =
     \<lparr>transports = [(sid1, Transport (Some sid1))],
      sessionLastAccess = [(sid1, 1900000)],
      closedTransports = []\<rparr>"

definition two_sessions :: server_state where
  "two_sessions =
     \<lparr>transports = [(sid1, Transport (Some sid1)), (sid2, Transport (Some sid2))],
      sessionLastAccess = [(sid1, 100000), (sid2, 1900000)],
      closedTransports = []\<rparr>"

definition decimal3 :: "nat \<Rightarrow> string" where
  "decimal3 i = map (\<lambda>d. ''0123456789'' ! (d mod 10)) [i div 100, i div 10, i]"

definition numbered_sid :: "nat \<Rightarrow> session_id" where
  "numbered_sid i = ''00000000-0000-4000-8000-000000000'' @ decimal3 i"

definition full_state :: server_state where
  "full_state =
     \<lparr>transports = map (\<lambda>i. (numbered_sid i, Transport (Some (numbered_sid i)))) [0..<1000],
      sessionLastAccess = map (\<lambda>i. (numbered_sid i, 1900000)) [0..<1000],
      closedTransports = []\<rparr>"

definition ok_handled :: handled where
  "ok_handled = \<lparr>didClose = False, threw = False, sent = Some 200\<rparr>"

definition request_with :: "string option \<Rightarrow> bool \<Rightarrow> request" where
  "request_with sid init =
     \<lparr>mcpSessionId = sid, authorization = Some ''Bearer tokA'', isInitializeRequest = init\<rparr>"

definition init_request :: request where
  "init_request = \<lparr>mcpSessionId = None, authorization = Some ''Bearer tokA'', isInitializeRequest = True\<rparr>"

definition env_ok :: env where
  "env_ok = \<lparr>dateNow = 2000000, delegate = ok_handled,
             newSession = HandleRequest (Some (sid2, 2000000)) ok_handled\<rparr>"

definition env_connect_fails :: env where
  "env_connect_fails = \<lparr>dateNow = 2000000, delegate = ok_handled, newSession = ConnectThrows\<rparr>"

definition env_rejected :: env where
  "env_rejected =
     \<lparr>dateNow = 2000000,
      delegate = \<lparr>didClose = False, threw = False, sent = Some 400\<rparr>,
      newSession = HandleRequest None \<lparr>didClose = False, threw = False, sent = Some 400\<rparr>\<rparr>"

definition sessions_db :: "string \<Rightarrow> mcp_session option attempt" where
  "sessions_db tok =
     (if tok = ''tokA''
      then Returns (Some \<lparr>session_clientId = ''client-A'', session_scopes = Some ''openid profile'',
                          accessTokenExpiresAt = Some 5000000\<rparr>)
      else if tok = ''tokB''
      then Returns (Some \<lparr>session_clientId = ''client-B'', session_scopes = None,
                          accessTokenExpiresAt = None\<rparr>)
      else Returns None)"

definition auth_env0 :: auth_env where
  "auth_env0 = \<lparr>authInitialized = True, getMcpSession = sessions_db, authNow = 2000000\<rparr>"

definition request_A :: request where
  "request_A = \<lparr>mcpSessionId = None, authorization = Some ''Bearer tokA'', isInitializeRequest = True\<rparr>"

definition request_B :: request where
  "request_B = \<lparr>mcpSessionId = None, authorization = Some ''Bearer tokB'', isInitializeRequest = True\<rparr>"

definition request_anonymous :: request where
  "request_anonymous = \<lparr>mcpSessionId = None, authorization = None, isInitializeRequest = True\<rparr>"

definition no_locals :: app_locals where
  "no_locals = \<lparr>locals_auth = None\<rparr>"

definition info_A :: auth_info where
  "info_A = \<lparr>token = ''tokA'', clientId = ''client-A'', scopes = [''openid'', ''profile''],
             expiresAt = 5000\<rparr>"

definition info_B :: auth_info where
  "info_B = \<lparr>token = ''tokB'', clientId = ''client-B'', scopes = [''openid''],
             expiresAt = 5600\<rparr>"

definition prm_only :: "handler \<Rightarrow> string option" where
  "prm_only h = (if h = PrmHandler then Some ''prm-document'' else None)"

section \<open>Association lists\<close>

lemma set_delete_subset: "set (AList.delete k al) \<subseteq> set al"
  by (auto simp: AList.delete_eq)

lemma in_set_deleteD: "x \<in> set (AList.delete k al) \<Longrightarrow> x \<in> set al"
  by (auto simp: AList.delete_eq)

lemma list_all_delete: "list_all P al \<Longrightarrow> list_all P (AList.delete k al)"
  by (simp add: AList.delete_eq list_all_iff)

lemma list_all_update:
  "P (k, v) \<Longrightarrow> list_all P al \<Longrightarrow> list_all P (AList.update k v al)"
  by (induction al) auto

lemma map_of_delete_same: "map_of (AList.delete k al) k = None"
  by (simp add: AList.delete_conv')

lemma map_of_None_subset:
  "set al' \<subseteq> set al \<Longrightarrow> map_of al k = None \<Longrightarrow> map_of al' k = None"
  by (metis map_of_eq_None_iff image_mono subsetD)

lemma length_update_le: "length (AList.update k v al) \<le> Suc (length al)"
  by (induction al) auto

lemma keys_delete: "fst ` set (AList.delete k al) = fst ` set al - {k}"
  by (auto simp: AList.delete_eq image_iff)

lemma keys_update: "fst ` set (AList.update k v al) = insert k (fst ` set al)"
  by (simp add: AList.dom_update)

lemma map_has_keys: "map_has al k \<longleftrightarrow> k \<in> fst ` set al"
  by (simp add: map_has_def map_of_eq_None_iff)

section \<open>The callbacks and the sweep\<close>

lemma registered_sessionId:
  "wf_state s \<Longrightarrow> map_of (transports s) sid = Some t \<Longrightarrow> sessionId t = Some sid"
  by (auto simp: wf_state_def list_all_iff dest!: map_of_SomeD)

subsection \<open>onsessioninitialized, onclose and close\<close>

lemma onclose_transports_subset: "set (transports (onclose t s)) \<subseteq> set (transports s)"
  by (auto simp: onclose_def split: option.splits dest: in_set_deleteD)

lemma onclose_lastAccess_subset: "set (sessionLastAccess (onclose t s)) \<subseteq> set (sessionLastAccess s)"
  by (auto simp: onclose_def split: option.splits dest: in_set_deleteD)

lemma onclose_length: "length (transports (onclose t s)) \<le> length (transports s)"
  by (auto simp: onclose_def AList.length_delete_le split: option.splits)

lemma onclose_closed [simp]: "closedTransports (onclose t s) = closedTransports s"
  by (auto simp: onclose_def split: option.splits)

lemma onclose_other_transports:
  "sessionId t \<noteq> Some k \<Longrightarrow> map_of (transports (onclose t s)) k = map_of (transports s) k"
  by (auto simp: onclose_def split: option.splits)

lemma onclose_other_lastAccess:
  "sessionId t \<noteq> Some k \<Longrightarrow> map_of (sessionLastAccess (onclose t s)) k = map_of (sessionLastAccess s) k"
  by (auto simp: onclose_def split: option.splits)

lemma onclose_wf: "wf_state s \<Longrightarrow> wf_state (onclose t s)"
  by (auto simp: onclose_def wf_state_def AList.distinct_delete list_all_delete split: option.splits)

lemma onclose_same_keys: "same_keys s \<Longrightarrow> same_keys (onclose t s)"
  by (auto simp: same_keys_def onclose_def keys_delete split: option.splits)

lemma close_transports_subset: "set (transports (close_transport t s)) \<subseteq> set (transports s)"
  using onclose_transports_subset [of t "s\<lparr>closedTransports := t # closedTransports s\<rparr>"]
  by (simp add: close_transport_def)

lemma close_lastAccess_subset:
  "set (sessionLastAccess (close_transport t s)) \<subseteq> set (sessionLastAccess s)"
  using onclose_lastAccess_subset [of t "s\<lparr>closedTransports := t # closedTransports s\<rparr>"]
  by (simp add: close_transport_def)

lemma close_length: "length (transports (close_transport t s)) \<le> length (transports s)"
  using onclose_length [of t "s\<lparr>closedTransports := t # closedTransports s\<rparr>"]
  by (simp add: close_transport_def)

lemma close_closed [simp]: "closedTransports (close_transport t s) = t # closedTransports s"
  by (simp add: close_transport_def)

lemma close_other_transports:
  "sessionId t \<noteq> Some k \<Longrightarrow> map_of (transports (close_transport t s)) k = map_of (transports s) k"
  by (simp add: close_transport_def onclose_other_transports)

lemma close_other_lastAccess:
  "sessionId t \<noteq> Some k \<Longrightarrow>
   map_of (sessionLastAccess (close_transport t s)) k = map_of (sessionLastAccess s) k"
  by (simp add: close_transport_def onclose_other_lastAccess)

lemma close_wf: "wf_state s \<Longrightarrow> wf_state (close_transport t s)"
proof -
  assume "wf_state s"
  then have "wf_state (s\<lparr>closedTransports := t # closedTransports s\<rparr>)"
    by (simp add: wf_state_def)
  then show ?thesis unfolding close_transport_def by (rule onclose_wf)
qed

lemma close_same_keys: "same_keys s \<Longrightarrow> same_keys (close_transport t s)"
proof -
  assume "same_keys s"
  then have "same_keys (s\<lparr>closedTransports := t # closedTransports s\<rparr>)"
    by (simp add: same_keys_def)
  then show ?thesis unfolding close_transport_def by (rule onclose_same_keys)
qed

lemma onsessioninitialized_wf:
  "wf_state s \<Longrightarrow> sessionId t = Some sid \<Longrightarrow> wf_state (onsessioninitialized t sid now s)"
  by (simp add: wf_state_def onsessioninitialized_def AList.distinct_update list_all_update)

lemma onsessioninitialized_same_keys:
  "same_keys s \<Longrightarrow> same_keys (onsessioninitialized t sid now s)"
  by (simp add: same_keys_def onsessioninitialized_def keys_update)

subsection \<open>Evicting one entry\<close>

lemma evict_entry_transports_subset: "set (transports (evict_entry sid s)) \<subseteq> set (transports s)"
  using close_transports_subset
  by (fastforce simp: evict_entry_def Let_def split: option.splits dest: in_set_deleteD)

lemma evict_entry_lastAccess_subset:
  "set (sessionLastAccess (evict_entry sid s)) \<subseteq> set (sessionLastAccess s)"
  using close_lastAccess_subset
  by (fastforce simp: evict_entry_def Let_def split: option.splits dest: in_set_deleteD)

lemma evict_entry_length: "length (transports (evict_entry sid s)) \<le> length (transports s)"
proof (cases "map_of (transports s) sid")
  case None
  then show ?thesis by (simp add: evict_entry_def)
next
  case (Some t)
  have "length (AList.delete sid (transports (close_transport t s))) \<le> length (transports (close_transport t s))"
    by (rule AList.length_delete_le)
  also have "\<dots> \<le> length (transports s)" by (rule close_length)
  finally show ?thesis using Some by (simp add: evict_entry_def Let_def)
qed

lemma evict_entry_closed_mono: "set (closedTransports s) \<subseteq> set (closedTransports (evict_entry sid s))"
  by (auto simp: evict_entry_def Let_def split: option.splits)

lemma evict_entry_gone:
  "map_of (transports (evict_entry sid s)) sid = None \<and>
   map_of (sessionLastAccess (evict_entry sid s)) sid = None"
  by (auto simp: evict_entry_def Let_def map_of_delete_same split: option.splits)

lemma evict_entry_closes:
  "map_of (transports s) sid = Some t \<Longrightarrow> t \<in> set (closedTransports (evict_entry sid s))"
  by (simp add: evict_entry_def Let_def)

lemma evict_entry_other:
  assumes "wf_state s" and "k \<noteq> sid"
  shows "map_of (transports (evict_entry sid s)) k = map_of (transports s) k"
    and "map_of (sessionLastAccess (evict_entry sid s)) k = map_of (sessionLastAccess s) k"
proof -
  show "map_of (transports (evict_entry sid s)) k = map_of (transports s) k"
  proof (cases "map_of (transports s) sid")
    case None
    then show ?thesis by (simp add: evict_entry_def)
  next
    case (Some t)
    then have "sessionId t \<noteq> Some k" using registered_sessionId [OF assms(1) Some] assms(2) by simp
    then show ?thesis using Some assms(2)
      by (simp add: evict_entry_def Let_def close_other_transports)
  qed
  show "map_of (sessionLastAccess (evict_entry sid s)) k = map_of (sessionLastAccess s) k"
  proof (cases "map_of (transports s) sid")
    case None
    then show ?thesis using assms(2) by (simp add: evict_entry_def)
  next
    case (Some t)
    then have "sessionId t \<noteq> Some k" using registered_sessionId [OF assms(1) Some] assms(2) by simp
    then show ?thesis using Some assms(2)
      by (simp add: evict_entry_def Let_def close_other_lastAccess)
  qed
qed

lemma evict_entry_wf: "wf_state s \<Longrightarrow> wf_state (evict_entry sid s)"
proof (cases "map_of (transports s) sid")
  case None
  assume "wf_state s"
  then show ?thesis using None
    by (simp add: evict_entry_def wf_state_def AList.distinct_delete)
next
  case (Some t)
  assume "wf_state s"
  then have "wf_state (close_transport t s)" by (rule close_wf)
  then show ?thesis using Some
    by (simp add: evict_entry_def Let_def wf_state_def AList.distinct_delete list_all_delete)
qed

lemma evict_entry_same_keys:
  assumes "same_keys s"
  shows "same_keys (evict_entry sid s)"
proof (cases "map_of (transports s) sid")
  case None
  then have "sid \<notin> fst ` set (transports s)" by (simp add: map_of_eq_None_iff)
  then show ?thesis using assms None
    by (auto simp: evict_entry_def same_keys_def keys_delete)
next
  case (Some t)
  have "same_keys (close_transport t s)" using assms by (rule close_same_keys)
  then show ?thesis using Some
    by (simp add: evict_entry_def Let_def same_keys_def keys_delete)
qed

subsection \<open>The sweep\<close>

lemma evict_loop_transports_subset:
  "set (transports (evict_loop c l s)) \<subseteq> set (transports s)"
proof (induction l arbitrary: s)
  case Nil
  show ?case by simp
next
  case (Cons p l)
  obtain sid la where p: "p = (sid, la)" by (cases p)
  have "set (transports (evict_loop c l (evict_entry sid s))) \<subseteq> set (transports s)"
    using Cons.IH [of "evict_entry sid s"] evict_entry_transports_subset [of sid s] by blast
  then show ?case using Cons.IH [of s] by (simp add: p)
qed

lemma evict_loop_lastAccess_subset:
  "set (sessionLastAccess (evict_loop c l s)) \<subseteq> set (sessionLastAccess s)"
proof (induction l arbitrary: s)
  case Nil
  show ?case by simp
next
  case (Cons p l)
  obtain sid la where p: "p = (sid, la)" by (cases p)
  have "set (sessionLastAccess (evict_loop c l (evict_entry sid s))) \<subseteq> set (sessionLastAccess s)"
    using Cons.IH [of "evict_entry sid s"] evict_entry_lastAccess_subset [of sid s] by blast
  then show ?case using Cons.IH [of s] by (simp add: p)
qed

lemma evict_loop_length: "length (transports (evict_loop c l s)) \<le> length (transports s)"
proof (induction l arbitrary: s)
  case Nil
  show ?case by simp
next
  case (Cons p l)
  obtain sid la where p: "p = (sid, la)" by (cases p)
  have "length (transports (evict_loop c l (evict_entry sid s))) \<le> length (transports s)"
    using Cons.IH [of "evict_entry sid s"] evict_entry_length [of sid s] by linarith
  then show ?case using Cons.IH [of s] by (simp add: p)
qed

lemma evict_loop_closed_mono:
  "set (closedTransports s) \<subseteq> set (closedTransports (evict_loop c l s))"
proof (induction l arbitrary: s)
  case Nil
  show ?case by simp
next
  case (Cons p l)
  obtain sid la where p: "p = (sid, la)" by (cases p)
  have "set (closedTransports s) \<subseteq> set (closedTransports (evict_loop c l (evict_entry sid s)))"
    using Cons.IH [of "evict_entry sid s"] evict_entry_closed_mono [of s sid] by blast
  then show ?case using Cons.IH [of s] by (simp add: p)
qed

lemma evict_loop_fresh:
  "list_all (\<lambda>(sid, la). \<not> la < c) l \<Longrightarrow> evict_loop c l s = s"
  by (induction l arbitrary: s) auto

lemma evict_loop_retains:
  assumes "wf_state s" and "list_all (\<lambda>(sid, la). sid = k \<longrightarrow> \<not> la < c) l"
  shows "map_of (transports (evict_loop c l s)) k = map_of (transports s) k \<and>
         map_of (sessionLastAccess (evict_loop c l s)) k = map_of (sessionLastAccess s) k"
  using assms
proof (induction l arbitrary: s)
  case Nil
  show ?case by simp
next
  case (Cons p l)
  obtain sid la where p: "p = (sid, la)" by (cases p)
  have rest: "list_all (\<lambda>(sid, la). sid = k \<longrightarrow> \<not> la < c) l" using Cons.prems(2) by simp
  show ?case
  proof (cases "map_has (sessionLastAccess s) sid \<and> la < c")
    case False
    then have "evict_loop c (p # l) s = evict_loop c l s" by (auto simp: p)
    then show ?thesis using Cons.IH [OF Cons.prems(1) rest] by simp
  next
    case True
    then have neq: "k \<noteq> sid" using Cons.prems(2) by (auto simp: p)
    have step: "evict_loop c (p # l) s = evict_loop c l (evict_entry sid s)"
      using True by (simp add: p)
    have "wf_state (evict_entry sid s)" using Cons.prems(1) by (rule evict_entry_wf)
    from Cons.IH [OF this rest] show ?thesis
      using evict_entry_other [OF Cons.prems(1) neq] by (simp add: step)
  qed
qed

lemma evict_loop_removes:
  assumes "wf_state s" and "distinct (map fst l)" and "(k, la) \<in> set l" and "la < c"
    and "map_has (sessionLastAccess s) k"
  shows "map_of (transports (evict_loop c l s)) k = None \<and>
         map_of (sessionLastAccess (evict_loop c l s)) k = None \<and>
         (\<forall>t. map_of (transports s) k = Some t \<longrightarrow>
               t \<in> set (closedTransports (evict_loop c l s)))"
  using assms
proof (induction l arbitrary: s)
  case Nil
  then show ?case by simp
next
  case (Cons p l)
  obtain sid la0 where p: "p = (sid, la0)" by (cases p)
  show ?case
  proof (cases "sid = k")
    case True
    have "la0 = la" using Cons.prems(2,3) True by (force simp: p)
    then have step: "evict_loop c (p # l) s = evict_loop c l (evict_entry k s)"
      using True Cons.prems(4,5) by (simp add: p)
    let ?s1 = "evict_entry k s"
    have gone: "map_of (transports ?s1) k = None" "map_of (sessionLastAccess ?s1) k = None"
      using evict_entry_gone [of k s] by simp_all
    have t: "map_of (transports (evict_loop c l ?s1)) k = None"
      using map_of_None_subset [OF evict_loop_transports_subset gone(1)] .
    have a: "map_of (sessionLastAccess (evict_loop c l ?s1)) k = None"
      using map_of_None_subset [OF evict_loop_lastAccess_subset gone(2)] .
    have cl: "\<forall>t. map_of (transports s) k = Some t \<longrightarrow>
                 t \<in> set (closedTransports (evict_loop c l ?s1))"
      using evict_entry_closes [of s k] evict_loop_closed_mono [of ?s1 c l]
      by blast
    show ?thesis using t a cl by (simp add: step)
  next
    case False
    then have mem: "(k, la) \<in> set l" using Cons.prems(3) by (simp add: p)
    have dist: "distinct (map fst l)" using Cons.prems(2) by simp
    show ?thesis
    proof (cases "map_has (sessionLastAccess s) sid \<and> la0 < c")
      case False
      then have step: "evict_loop c (p # l) s = evict_loop c l s" by (auto simp: p)
      show ?thesis using Cons.IH [OF Cons.prems(1) dist mem Cons.prems(4,5)] by (simp add: step)
    next
      case True
      then have step: "evict_loop c (p # l) s = evict_loop c l (evict_entry sid s)"
        by (simp add: p)
      have neq: "k \<noteq> sid" using False by simp
      have wf1: "wf_state (evict_entry sid s)" using Cons.prems(1) by (rule evict_entry_wf)
      have has1: "map_has (sessionLastAccess (evict_entry sid s)) k"
        using Cons.prems(5) evict_entry_other(2) [OF Cons.prems(1) neq] by (simp add: map_has_def)
      have same: "map_of (transports (evict_entry sid s)) k = map_of (transports s) k"
        using evict_entry_other(1) [OF Cons.prems(1) neq] .
      show ?thesis using Cons.IH [OF wf1 dist mem Cons.prems(4) has1] by (simp add: step same)
    qed
  qed
qed

lemma evict_loop_wf: "wf_state s \<Longrightarrow> wf_state (evict_loop c l s)"
proof (induction l arbitrary: s)
  case Nil
  then show ?case by simp
next
  case (Cons p l)
  obtain sid la where p: "p = (sid, la)" by (cases p)
  show ?case using Cons.IH [OF Cons.prems] Cons.IH [OF evict_entry_wf [OF Cons.prems]]
    by (simp add: p)
qed

lemma evict_loop_same_keys: "same_keys s \<Longrightarrow> same_keys (evict_loop c l s)"
proof (induction l arbitrary: s)
  case Nil
  then show ?case by simp
next
  case (Cons p l)
  obtain sid la where p: "p = (sid, la)" by (cases p)
  show ?case
    using Cons.IH [OF Cons.prems] Cons.IH [OF evict_entry_same_keys [OF Cons.prems]]
    by (simp add: p)
qed

lemma evictStaleSessions_length:
  "length (transports (evictStaleSessions now s)) \<le> length (transports s)"
  by (simp add: evictStaleSessions_def evict_loop_length)

lemma evictStaleSessions_keys:
  "fst ` set (transports (evictStaleSessions now s)) \<subseteq> fst ` set (transports s)"
  "fst ` set (sessionLastAccess (evictStaleSessions now s)) \<subseteq> fst ` set (sessionLastAccess s)"
  using evict_loop_transports_subset [of "now - SESSION_TTL_MS" "sessionLastAccess s" s]
        evict_loop_lastAccess_subset [of "now - SESSION_TTL_MS" "sessionLastAccess s" s]
  by (auto simp: evictStaleSessions_def)

lemma evictStaleSessions_wf: "wf_state s \<Longrightarrow> wf_state (evictStaleSessions now s)"
  by (simp add: evictStaleSessions_def evict_loop_wf)

lemma evictStaleSessions_same_keys: "same_keys s \<Longrightarrow> same_keys (evictStaleSessions now s)"
  by (simp add: evictStaleSessions_def evict_loop_same_keys)

subsection \<open>Session creation and the handlers\<close>

lemma createSession_length:
  "length (transports (snd (createSession c s))) \<le> Suc (length (transports s))"
proof (cases c)
  case (HandleRequest init h)
  let ?t = "Transport (map_option fst init)"
  let ?s1 = "case init of None \<Rightarrow> s | Some (sid, now) \<Rightarrow> onsessioninitialized ?t sid now s"
  have a: "length (transports ?s1) \<le> Suc (length (transports s))"
    by (auto simp: onsessioninitialized_def length_update_le split: option.splits)
  have b: "length (transports (close_transport ?t ?s1)) \<le> Suc (length (transports s))"
    using close_length [of ?t ?s1] a by linarith
  show ?thesis using a b by (simp add: createSession_def HandleRequest Let_def)
qed (simp_all add: createSession_def)

lemma createSession_wf: "wf_state s \<Longrightarrow> wf_state (snd (createSession c s))"
  by (cases c)
     (auto simp: createSession_def Let_def close_wf onsessioninitialized_wf split: option.splits)

lemma createSession_same_keys: "same_keys s \<Longrightarrow> same_keys (snd (createSession c s))"
  by (cases c)
     (auto simp: createSession_def Let_def close_same_keys onsessioninitialized_same_keys
           split: option.splits)

lemma post_mcp_new_session:
  assumes "new_session_request req s"
  shows "post_mcp req e s =
     (if MAX_SESSIONS \<le> length (transports s)
      then (let s1 = evictStaleSessions (dateNow e) s in
            if MAX_SESSIONS \<le> length (transports s1) then (Some serverBusy, s1)
            else createSession (newSession e) s1)
      else createSession (newSession e) s)"
  using assms by (auto simp: post_mcp_def new_session_request_def Let_def serverBusy_def)

lemma post_mcp_size:
  assumes "length (transports s) \<le> MAX_SESSIONS"
  shows "length (transports (snd (post_mcp req e s))) \<le> MAX_SESSIONS"
proof -
  let ?sid = "as_string (mcpSessionId req)"
  consider (bad) "truthy (mcpSessionId req) \<and> \<not> isValidSessionId ?sid"
    | (known) "\<not> (truthy (mcpSessionId req) \<and> \<not> isValidSessionId ?sid)"
              "truthy (mcpSessionId req) \<and> map_has (transports s) ?sid"
    | (noinit) "\<not> (truthy (mcpSessionId req) \<and> \<not> isValidSessionId ?sid)"
               "\<not> (truthy (mcpSessionId req) \<and> map_has (transports s) ?sid)"
               "\<not> isInitializeRequest req"
    | (new) "new_session_request req s"
    by (auto simp: new_session_request_def)
  then show ?thesis
  proof cases
    case bad
    then show ?thesis using assms by (simp add: post_mcp_def)
  next
    case known
    let ?s1 = "s\<lparr>sessionLastAccess := AList.update ?sid (dateNow e) (sessionLastAccess s)\<rparr>"
    obtain t where t: "map_of (transports s) ?sid = Some t"
      using known(2) by (auto simp: map_has_def)
    have "length (transports (close_transport t ?s1)) \<le> length (transports s)"
      using close_length [of t ?s1] by simp
    then show ?thesis using known t assms by (auto simp: post_mcp_def Let_def)
  next
    case noinit
    then show ?thesis using assms by (auto simp: post_mcp_def Let_def)
  next
    case new
    let ?s1 = "evictStaleSessions (dateNow e) s"
    show ?thesis
    proof (cases "MAX_SESSIONS \<le> length (transports s)")
      case False
      then have "Suc (length (transports s)) \<le> MAX_SESSIONS" by simp
      then show ?thesis using createSession_length [of "newSession e" s] False
        by (simp add: post_mcp_new_session [OF new])
    next
      case True
      show ?thesis
      proof (cases "MAX_SESSIONS \<le> length (transports ?s1)")
        case True
        have "length (transports ?s1) \<le> MAX_SESSIONS"
          using evictStaleSessions_length [of "dateNow e" s] assms by linarith
        then show ?thesis using True \<open>MAX_SESSIONS \<le> length (transports s)\<close>
          by (simp add: post_mcp_new_session [OF new] Let_def)
      next
        case False
        then have "Suc (length (transports ?s1)) \<le> MAX_SESSIONS" by simp
        then show ?thesis using createSession_length [of "newSession e" ?s1] False True
          by (simp add: post_mcp_new_session [OF new] Let_def)
      qed
    qed
  qed
qed

lemma touch_wf:
  "wf_state s \<Longrightarrow> wf_state (s\<lparr>sessionLastAccess := AList.update sid now (sessionLastAccess s)\<rparr>)"
  by (simp add: wf_state_def AList.distinct_update)

lemma forget_wf:
  "wf_state s \<Longrightarrow> wf_state (s\<lparr>sessionLastAccess := AList.delete sid (sessionLastAccess s)\<rparr>)"
  by (simp add: wf_state_def AList.distinct_delete)

lemma touch_same_keys:
  assumes "same_keys s" and "map_has (transports s) sid"
  shows "same_keys (s\<lparr>sessionLastAccess := AList.update sid now (sessionLastAccess s)\<rparr>)"
  using assms by (auto simp: same_keys_def keys_update map_has_keys)

text \<open>
  The handlers keep states well formed, starting from the empty maps of a fresh process.
\<close>

lemma wf_empty: "wf_state \<lparr>transports = [], sessionLastAccess = [], closedTransports = []\<rparr>"
  by (simp add: wf_state_def)

lemma post_mcp_wf:
  assumes "wf_state s"
  shows "wf_state (snd (post_mcp req e s))"
  using assms touch_wf [OF assms] close_wf [OF touch_wf [OF assms]]
        createSession_wf [OF assms] evictStaleSessions_wf [OF assms]
        createSession_wf [OF evictStaleSessions_wf [OF assms]]
  by (auto simp: post_mcp_def Let_def split: option.splits)

lemma get_mcp_wf:
  assumes "wf_state s"
  shows "wf_state (snd (get_mcp req e s))"
  using assms touch_wf [OF assms] close_wf [OF touch_wf [OF assms]]
  by (auto simp: get_mcp_def Let_def split: option.splits)

lemma delete_mcp_wf:
  assumes "wf_state s"
  shows "wf_state (snd (delete_mcp req e s))"
  using assms forget_wf [OF assms] close_wf [OF forget_wf [OF assms]]
  by (auto simp: delete_mcp_def Let_def split: option.splits)

lemma post_mcp_same_keys:
  assumes "same_keys s"
  shows "same_keys (snd (post_mcp req e s))"
proof -
  let ?sid = "as_string (mcpSessionId req)"
  let ?s1 = "s\<lparr>sessionLastAccess := AList.update ?sid (dateNow e) (sessionLastAccess s)\<rparr>"
  have touched: "map_has (transports s) ?sid \<Longrightarrow> same_keys ?s1"
    using touch_same_keys [OF assms] by simp
  have closed: "map_has (transports s) ?sid \<Longrightarrow> same_keys (close_transport t ?s1)" for t
    using touched by (rule close_same_keys)
  show ?thesis
    using assms touched closed
          createSession_same_keys [OF assms, of "newSession e"]
          evictStaleSessions_same_keys [OF assms, of "dateNow e"]
          createSession_same_keys [OF evictStaleSessions_same_keys [OF assms, of "dateNow e"],
                                   of "newSession e"]
    by (auto simp: post_mcp_def Let_def split: option.splits)
qed

lemma get_mcp_same_keys:
  assumes "same_keys s"
  shows "same_keys (snd (get_mcp req e s))"
proof -
  let ?sid = "as_string (mcpSessionId req)"
  let ?s1 = "s\<lparr>sessionLastAccess := AList.update ?sid (dateNow e) (sessionLastAccess s)\<rparr>"
  have touched: "map_has (transports s) ?sid \<Longrightarrow> same_keys ?s1"
    using touch_same_keys [OF assms] by simp
  have closed: "map_has (transports s) ?sid \<Longrightarrow> same_keys (close_transport t ?s1)" for t
    using touched by (rule close_same_keys)
  show ?thesis using assms touched closed
    by (auto simp: get_mcp_def Let_def split: option.splits)
qed

text \<open>DELETE keeps the key sets equal when the transport closes itself.\<close>

lemma delete_mcp_closing_same_keys:
  assumes "wf_state s" and "same_keys s" and "didClose (delegate e)"
  shows "same_keys (snd (delete_mcp req e s))"
proof -
  let ?sid = "as_string (mcpSessionId req)"
  let ?s1 = "s\<lparr>sessionLastAccess := AList.delete ?sid (sessionLastAccess s)\<rparr>"
  have "same_keys (close_transport t ?s1)"
    if t: "map_of (transports s) ?sid = Some t" and ne: "truthy (mcpSessionId req)" for t
  proof -
    have sid: "sessionId t = Some ?sid" using registered_sessionId [OF assms(1) t] .
    have "?sid \<noteq> []" using ne by (cases "mcpSessionId req") auto
    then show ?thesis using assms(2) sid
      by (auto simp: close_transport_def onclose_def same_keys_def keys_delete)
  qed
  then show ?thesis using assms(2,3)
    by (auto simp: delete_mcp_def Let_def map_has_def split: option.splits)
qed

subsection \<open>Shutdown\<close>

lemma shutdown_loop_same_keys: "same_keys s \<Longrightarrow> same_keys (shutdown_loop l s)"
proof (induction l arbitrary: s)
  case Nil
  then show ?case by simp
next
  case (Cons p l)
  obtain sid t where p: "p = (sid, t)" by (cases p)
  let ?s1 = "close_transport t s"
  let ?s2 = "?s1\<lparr>transports := AList.delete sid (transports ?s1),
                  sessionLastAccess := AList.delete sid (sessionLastAccess ?s1)\<rparr>"
  have "same_keys ?s1" using Cons.prems by (rule close_same_keys)
  then have "same_keys ?s2" by (simp add: same_keys_def keys_delete)
  then show ?case using Cons.IH [OF Cons.prems] Cons.IH [of ?s2] by (simp add: p Let_def)
qed

lemma shutdown_loop_keys:
  "fst ` set (transports (shutdown_loop l s)) \<subseteq> fst ` set (transports s) - fst ` set l"
proof (induction l arbitrary: s)
  case Nil
  show ?case by simp
next
  case (Cons p l)
  obtain sid t where p: "p = (sid, t)" by (cases p)
  let ?s1 = "close_transport t s"
  let ?s2 = "?s1\<lparr>transports := AList.delete sid (transports ?s1),
                  sessionLastAccess := AList.delete sid (sessionLastAccess ?s1)\<rparr>"
  show ?case
  proof (cases "map_has (transports s) sid")
    case False
    then have "sid \<notin> fst ` set (transports s)" by (simp add: map_has_keys)
    then show ?thesis using Cons.IH [of s] False by (auto simp: p)
  next
    case True
    have a: "fst ` set (transports ?s2) \<subseteq> fst ` set (transports s) - {sid}"
      using close_transports_subset [of t s] by (auto simp: keys_delete)
    have step: "shutdown_loop (p # l) s = shutdown_loop l ?s2"
      using True by (simp add: p Let_def)
    have "fst ` set (transports (shutdown_loop l ?s2)) \<subseteq> fst ` set (transports ?s2) - fst ` set l"
      by (rule Cons.IH)
    also have "\<dots> \<subseteq> (fst ` set (transports s) - {sid}) - fst ` set l"
      using a by blast
    also have "\<dots> = fst ` set (transports s) - fst ` set (p # l)"
      by (auto simp: p)
    finally show ?thesis by (simp only: step)
  qed
qed

text \<open>Shutdown leaves both maps empty.\<close>

lemma gracefulShutdown_empties:
  assumes "same_keys s"
  shows "transports (gracefulShutdown s) = [] \<and> sessionLastAccess (gracefulShutdown s) = []"
proof -
  have "fst ` set (transports (gracefulShutdown s)) \<subseteq> {}"
    using shutdown_loop_keys [of "transports s" s] by (simp add: gracefulShutdown_def)
  then have t: "transports (gracefulShutdown s) = []" by simp
  have "same_keys (gracefulShutdown s)"
    using assms by (simp add: gracefulShutdown_def shutdown_loop_same_keys)
  then show ?thesis using t by (simp add: same_keys_def)
qed

subsection \<open>Evaluations at the concrete inputs\<close>

lemma sid1_valid: "isValidSessionId sid1"
  by code_simp

lemma sid2_valid: "isValidSessionId sid2"
  by code_simp

lemma empty_invalid: "\<not> isValidSessionId []"
  by code_simp

lemma sid_neq: "sid1 \<noteq> sid2"
  by code_simp

lemma not_a_uuid: "\<not> isValidSessionId ''not-a-uuid''"
  by code_simp

text \<open>A sweep over a thousand sessions that are all recent changes nothing.\<close>

lemma evict_full_state: "evictStaleSessions 2000000 full_state = full_state"
  by (simp add: evictStaleSessions_def SESSION_TTL_MS_def full_state_def evict_loop_fresh
      list_all_iff)

lemma evict_two_sessions:
  "evictStaleSessions 2000000 two_sessions =
     \<lparr>transports = [(sid2, Transport (Some sid2))], sessionLastAccess = [(sid2, 1900000)],
      closedTransports = [Transport (Some sid1)]\<rparr>"
  using sid_neq
  by (simp add: evictStaleSessions_def two_sessions_def SESSION_TTL_MS_def map_has_def
      evict_entry_def close_transport_def onclose_def sid1_def sid2_def)

text \<open>Such a transport has no last-access entry, so no later sweep reaches it.\<close>

lemma orphan_never_evicted:
  "evictStaleSessions now
     \<lparr>transports = [(sid1, Transport (Some sid1))], sessionLastAccess = [],
      closedTransports = []\<rparr> =
     \<lparr>transports = [(sid1, Transport (Some sid1))], sessionLastAccess = [],
      closedTransports = []\<rparr>"
  by (simp add: evictStaleSessions_def)

lemma verify_A: "verifyAccessToken auth_env0 ''tokA'' = Returns info_A"
  by (simp add: verifyAccessToken_def auth_env0_def sessions_db_def info_A_def)

lemma verify_B: "verifyAccessToken auth_env0 ''tokB'' = Returns info_B"
  by (simp add: verifyAccessToken_def auth_env0_def sessions_db_def info_B_def)

lemma mw_A: "authMiddleware href url auth_env0 request_A locals = (Next, locals\<lparr>locals_auth := Some info_A\<rparr>)"
  by (simp add: authMiddleware_def authMiddleware_options_def requireBearerAuth_def
      request_A_def startsWithBearer_def verify_A)

lemma mw_B: "authMiddleware href url auth_env0 request_B locals = (Next, locals\<lparr>locals_auth := Some info_B\<rparr>)"
  by (simp add: authMiddleware_def authMiddleware_options_def requireBearerAuth_def
      request_B_def startsWithBearer_def verify_B)

lemma missing_bearer_rejected:
  assumes "resourceMetadataUrl opts = Some url" and "\<not> startsWithBearer (authorization req)"
  shows "\<exists>hdr. requireBearerAuth opts a req locals =
           (Rejected 401 hdr ''invalid_token'' ''Missing Authorization header'', locals) \<and>
         sublist ('', resource_metadata='' @ dquote @ url @ dquote) hdr"
proof -
  let ?hdr = "buildWwwAuth opts ''invalid_token'' ''Missing Authorization header''"
  have "suffix ('', resource_metadata='' @ dquote @ url @ dquote) ?hdr"
    using assms(1) by (simp add: buildWwwAuth_def Let_def suffix_def)
  then have "sublist ('', resource_metadata='' @ dquote @ url @ dquote) ?hdr"
    by (rule suffix_imp_sublist)
  moreover have "requireBearerAuth opts a req locals =
          (Rejected 401 ?hdr ''invalid_token'' ''Missing Authorization header'', locals)"
    using assms(2) by (simp add: requireBearerAuth_def)
  ultimately show ?thesis by blast
qed

text \<open>On success the middleware stores the context in the application's \<open>locals\<close>.\<close>

lemma requireBearerAuth_success:
  assumes "startsWithBearer (authorization req)"
    and "verifyAccessToken a (drop 7 (as_string (authorization req))) = Returns authInfo"
    and "list_all (\<lambda>sc. sc \<in> set (scopes authInfo)) (requiredScopes opts)"
  shows "requireBearerAuth opts a req locals = (Next, locals\<lparr>locals_auth := Some authInfo\<rparr>)"
  using assms by (simp add: requireBearerAuth_def)

section \<open>Reachable states\<close>

text \<open>
  Every reachable state is well formed and within the session cap.
\<close>

lemma get_mcp_size: "length (transports (snd (get_mcp req e s))) \<le> length (transports s)"
proof -
  let ?s1 = "s\<lparr>sessionLastAccess :=
                 AList.update (as_string (mcpSessionId req)) (dateNow e) (sessionLastAccess s)\<rparr>"
  have "length (transports (close_transport t ?s1)) \<le> length (transports s)" for t
    using close_length [of t ?s1] by simp
  then show ?thesis by (auto simp: get_mcp_def Let_def split: option.splits)
qed

lemma delete_mcp_size: "length (transports (snd (delete_mcp req e s))) \<le> length (transports s)"
proof -
  let ?s1 = "s\<lparr>sessionLastAccess :=
                 AList.delete (as_string (mcpSessionId req)) (sessionLastAccess s)\<rparr>"
  have "length (transports (close_transport t ?s1)) \<le> length (transports s)" for t
    using close_length [of t ?s1] by simp
  then show ?thesis by (auto simp: delete_mcp_def Let_def split: option.splits)
qed

lemma reachable_wf: "reachable s \<Longrightarrow> wf_state s"
proof (induction rule: reachable.induct)
  case start
  show ?case by (rule wf_empty)
next
  case (post s req e)
  then show ?case by (simp add: post_mcp_wf)
next
  case (get s req e)
  then show ?case by (simp add: get_mcp_wf)
next
  case (delete s req e)
  then show ?case by (simp add: delete_mcp_wf)
next
  case (sweep s now)
  then show ?case by (simp add: evictStaleSessions_wf)
qed

lemma reachable_within_cap: "reachable s \<Longrightarrow> length (transports s) \<le> MAX_SESSIONS"
proof (induction rule: reachable.induct)
  case start
  show ?case by simp
next
  case (post s req e)
  then show ?case by (simp add: post_mcp_size)
next
  case (get s req e)
  then show ?case using get_mcp_size [of req e s] by linarith
next
  case (delete s req e)
  then show ?case using delete_mcp_size [of req e s] by linarith
next
  case (sweep s now)
  then show ?case using evictStaleSessions_length [of now s] by linarith
qed

text \<open>
  A state in which a transport has no last-access entry is reachable: initialize a session,
  then send a DELETE that the transport answers without closing.
\<close>

lemma reachable_orphan:
  "reachable \<lparr>transports = [(sid1, Transport (Some sid1))], sessionLastAccess = [],
              closedTransports = []\<rparr>"
proof -
  have a: "reachable empty_state" unfolding empty_state_def by (rule reachable.start)
  have "snd (post_mcp init_request
                (env_ok\<lparr>newSession := HandleRequest (Some (sid1, 1900000)) ok_handled\<rparr>)
                empty_state) = one_session"
    by (simp add: post_mcp_def init_request_def env_ok_def empty_state_def one_session_def
        MAX_SESSIONS_def createSession_def ok_handled_def onsessioninitialized_def)
  then have b: "reachable one_session"
    using reachable.post [OF a, of init_request
        "env_ok\<lparr>newSession := HandleRequest (Some (sid1, 1900000)) ok_handled\<rparr>"] by simp
  have ne: "sid1 \<noteq> []" by (simp add: sid1_def)
  have "snd (delete_mcp (request_with (Some sid1) False) env_rejected one_session) =
      \<lparr>transports = [(sid1, Transport (Some sid1))], sessionLastAccess = [],
       closedTransports = []\<rparr>"
    using sid1_valid ne
    by (simp add: delete_mcp_def request_with_def env_rejected_def one_session_def map_has_def
        plain_reply_def)
  then show ?thesis
    using reachable.delete [OF b, of "request_with (Some sid1) False" env_rejected] by simp
qed

section \<open>The session cap\<close>

text \<open>
  Claim C1. Handling a POST /mcp request never takes the number of live sessions
  (\<open>transports.size\<close>) above \<open>MAX_SESSIONS\<close>. When an initialize request finds the count at
  or over the cap, one stale-session sweep runs and the count is read again: if it is still
  at or over the cap the answer is HTTP 503 and the state is the swept one, which has no
  session id that was not there before; otherwise a session is created from the swept state.
  Each request is handled as one step.
\<close>

theorem C1_session_cap:
  assumes "length (transports s) \<le> MAX_SESSIONS"
  shows "length (transports (snd (post_mcp req e s))) \<le> MAX_SESSIONS \<and>
         (new_session_request req s \<and> MAX_SESSIONS \<le> length (transports s) \<longrightarrow>
            (let s1 = evictStaleSessions (dateNow e) s in
             if MAX_SESSIONS \<le> length (transports s1)
             then post_mcp req e s = (Some serverBusy, s1) \<and>
                  fst ` set (transports s1) \<subseteq> fst ` set (transports s) \<and>
                  fst ` set (sessionLastAccess s1) \<subseteq> fst ` set (sessionLastAccess s)
             else post_mcp req e s = createSession (newSession e) s1))"
  using post_mcp_size [OF assms] evictStaleSessions_keys [of "dateNow e" s]
  by (simp add: post_mcp_new_session Let_def)

text \<open>
  With a thousand sessions, none of them idle, the next initialize request is refused.
\<close>

theorem C1_session_cap_witness:
  "length (transports full_state) \<le> MAX_SESSIONS \<and>
   new_session_request init_request full_state \<and>
   MAX_SESSIONS \<le> length (transports full_state) \<and>
   length (transports (snd (post_mcp init_request env_ok full_state))) \<le> MAX_SESSIONS \<and>
   post_mcp init_request env_ok full_state = (Some serverBusy, full_state)"
proof -
  have h: "length (transports full_state) \<le> MAX_SESSIONS"
    by (simp add: full_state_def MAX_SESSIONS_def)
  have n: "new_session_request init_request full_state"
    by (simp add: new_session_request_def init_request_def)
  have m: "MAX_SESSIONS \<le> length (transports full_state)"
    by (simp add: full_state_def MAX_SESSIONS_def)
  have d: "dateNow env_ok = 2000000" by (simp add: env_ok_def)
  show ?thesis
    using C1_session_cap [OF h, of init_request env_ok] h n m
    by (simp add: Let_def d evict_full_state)
qed

section \<open>Failures while a session is set up\<close>

text \<open>
  Claim C3. When, on a POST /mcp initialize request, constructing the transport, creating
  the server or connecting them throws, the answer is a 5xx error (500 from the \<open>catch\<close>
  block, or the 503 of the cap when the request was refused before anything was
  constructed), and afterwards neither map has a session id that it did not have before:
  the state is the one before the request or the swept one. Below the cap the answer is
  the 500 and the state is untouched.
\<close>

theorem C3_failed_setup_leaves_no_entry:
  assumes "new_session_request req s"
    and "newSession e = TransportConstructorThrows \<or> newSession e = CreateServerThrows \<or>
         newSession e = ConnectThrows"
  shows "\<exists>r s'. post_mcp req e s = (Some r, s') \<and>
           (r = internalError \<or> r = serverBusy) \<and>
           (\<exists>st. status_of r = Some st \<and> 500 \<le> st \<and> st < 600) \<and>
           (s' = s \<or> s' = evictStaleSessions (dateNow e) s) \<and>
           (length (transports s) < MAX_SESSIONS \<longrightarrow> r = internalError \<and> s' = s) \<and>
           fst ` set (transports s') \<subseteq> fst ` set (transports s) \<and>
           fst ` set (sessionLastAccess s') \<subseteq> fst ` set (sessionLastAccess s)"
proof -
  have c: "createSession (newSession e) s0 = (Some internalError, s0)" for s0
    using assms(2) by (auto simp: createSession_def)
  have st: "status_of internalError = Some 500" "status_of serverBusy = Some 503"
    by (simp_all add: internalError_def serverBusy_def)
  show ?thesis
    using evictStaleSessions_keys [of "dateNow e" s] st
    by (auto simp: post_mcp_new_session [OF assms(1)] c Let_def)
qed

text \<open>A failing \<open>server.connect\<close> on an empty server: 500, and the maps stay empty.\<close>

theorem C3_failed_setup_leaves_no_entry_witness:
  "new_session_request init_request empty_state \<and>
   newSession env_connect_fails = ConnectThrows \<and>
   length (transports empty_state) < MAX_SESSIONS \<and>
   post_mcp init_request env_connect_fails empty_state = (Some internalError, empty_state)"
proof -
  have n: "new_session_request init_request empty_state"
    by (simp add: new_session_request_def init_request_def)
  have f: "newSession env_connect_fails = ConnectThrows"
    by (simp add: env_connect_fails_def)
  have len: "length (transports empty_state) < MAX_SESSIONS"
    by (simp add: empty_state_def MAX_SESSIONS_def)
  have "newSession env_connect_fails = TransportConstructorThrows \<or>
        newSession env_connect_fails = CreateServerThrows \<or>
        newSession env_connect_fails = ConnectThrows"
    using f by simp
  from C3_failed_setup_leaves_no_entry [OF n this]
  show ?thesis using n f len by auto
qed

section \<open>Malformed session ids\<close>

text \<open>
  Claim C4 as stated fails for a header that is present but empty: the empty string does
  not match the UUID format, yet \<open>sessionId && \<dots>\<close> skips the format check of POST /mcp,
  and an initialize message then creates a session.
\<close>

theorem C4_empty_session_id_counterexample:
  "mcpSessionId (request_with (Some []) True) = Some [] \<and> \<not> isValidSessionId [] \<and>
   post_mcp (request_with (Some []) True) env_ok empty_state =
     (Some (FromTransport 200),
      \<lparr>transports = [(sid2, Transport (Some sid2))], sessionLastAccess = [(sid2, 2000000)],
       closedTransports = []\<rparr>)"
  using empty_invalid
  by (simp add: post_mcp_def request_with_def env_ok_def empty_state_def ok_handled_def
      MAX_SESSIONS_def createSession_def onsessioninitialized_def post_reply_def)

text \<open>
  Claim C4, amended. A request whose session id header does not match the UUID v4 format
  is answered with HTTP 400 and the state is returned as it was, whatever the maps hold:
  on GET and DELETE /mcp for every such header, on POST /mcp for every such header that
  is not empty. The answer does not depend on the state, so no map is consulted.
\<close>

theorem C4_malformed_session_id_rejected:
  assumes "mcpSessionId req = Some sid" and "\<not> isValidSessionId sid"
  shows "(sid \<noteq> [] \<longrightarrow>
            post_mcp req e s =
              (Some (JsonRpcError 400 (- 32000) ''Bad Request: Invalid session ID format''), s)) \<and>
         get_mcp req e s = (Some (PlainText 400 ''Invalid or missing session ID''), s) \<and>
         delete_mcp req e s = (Some (PlainText 400 ''Invalid or missing session ID''), s)"
  using assms by (simp add: post_mcp_def get_mcp_def delete_mcp_def)

text \<open>The header \<open>not-a-uuid\<close> on a server with one session.\<close>

theorem C4_malformed_session_id_rejected_witness:
  "mcpSessionId (request_with (Some ''not-a-uuid'') True) = Some ''not-a-uuid'' \<and>
   \<not> isValidSessionId ''not-a-uuid'' \<and> ''not-a-uuid'' \<noteq> [] \<and>
   post_mcp (request_with (Some ''not-a-uuid'') True) env_ok one_session =
     (Some (JsonRpcError 400 (- 32000) ''Bad Request: Invalid session ID format''), one_session) \<and>
   get_mcp (request_with (Some ''not-a-uuid'') True) env_ok one_session =
     (Some (PlainText 400 ''Invalid or missing session ID''), one_session) \<and>
   delete_mcp (request_with (Some ''not-a-uuid'') True) env_ok one_session =
     (Some (PlainText 400 ''Invalid or missing session ID''), one_session)"
proof -
  have a: "mcpSessionId (request_with (Some ''not-a-uuid'') True) = Some ''not-a-uuid''"
    by (simp add: request_with_def)
  show ?thesis using C4_malformed_session_id_rejected [OF a not_a_uuid, of env_ok one_session] a not_a_uuid by simp
qed

section \<open>Requests without a session\<close>

text \<open>
  Claim C5. A POST /mcp request without a session id header whose body is not an
  initialize message is answered with HTTP 400, the message ends in
  \<open>No valid session ID provided\<close>, and the session maps are unchanged.
\<close>

theorem C5_no_session_non_initialize:
  assumes "mcpSessionId req = None" and "\<not> isInitializeRequest req"
  shows "post_mcp req e s =
           (Some (JsonRpcError 400 (- 32000) ''Bad Request: No valid session ID provided''), s) \<and>
         status_of (JsonRpcError 400 (- 32000) ''Bad Request: No valid session ID provided'') = Some 400 \<and>
         suffix ''No valid session ID provided''
           (message_of (JsonRpcError 400 (- 32000) ''Bad Request: No valid session ID provided''))"
  using assms by (simp add: post_mcp_def suffix_def)

text \<open>A non-initialize message without a session id header.\<close>

theorem C5_no_session_non_initialize_witness:
  "mcpSessionId (request_with None False) = None \<and>
   \<not> isInitializeRequest (request_with None False) \<and>
   post_mcp (request_with None False) env_ok one_session =
     (Some (JsonRpcError 400 (- 32000) ''Bad Request: No valid session ID provided''), one_session)"
proof -
  have a: "mcpSessionId (request_with None False) = None" by (simp add: request_with_def)
  have b: "\<not> isInitializeRequest (request_with None False)" by (simp add: request_with_def)
  show ?thesis using C5_no_session_non_initialize [OF a b, of env_ok one_session] a b by simp
qed

section \<open>Idle eviction\<close>

text \<open>
  Claim C6. In a well-formed state, a session whose last access is older than the TTL
  (\<open>lastAccess < now - SESSION_TTL_MS\<close>) when the sweep runs is removed from both maps and
  its transport is closed; a session whose last access is not older than the TTL keeps its
  entry in both maps.
\<close>

theorem C6_sweep_evicts_stale_keeps_fresh:
  assumes "wf_state s" and "map_of (sessionLastAccess s) sid = Some lastAccess"
  shows "(lastAccess < now - SESSION_TTL_MS \<longrightarrow>
            map_of (transports (evictStaleSessions now s)) sid = None \<and>
            map_of (sessionLastAccess (evictStaleSessions now s)) sid = None \<and>
            (\<forall>t. map_of (transports s) sid = Some t \<longrightarrow>
                   t \<in> set (closedTransports (evictStaleSessions now s)))) \<and>
         (\<not> lastAccess < now - SESSION_TTL_MS \<longrightarrow>
            map_of (transports (evictStaleSessions now s)) sid = map_of (transports s) sid \<and>
            map_of (sessionLastAccess (evictStaleSessions now s)) sid = Some lastAccess)"
proof (intro conjI impI)
  let ?c = "now - SESSION_TTL_MS"
  have dist: "distinct (map fst (sessionLastAccess s))" using assms(1) by (simp add: wf_state_def)
  have mem: "(sid, lastAccess) \<in> set (sessionLastAccess s)" using assms(2) by (rule map_of_SomeD)
  have has: "map_has (sessionLastAccess s) sid" using assms(2) by (simp add: map_has_def)
  {
    assume stale: "lastAccess < ?c"
    note r = evict_loop_removes [OF assms(1) dist mem stale has]
    show "map_of (transports (evictStaleSessions now s)) sid = None"
      using r by (simp add: evictStaleSessions_def)
    show "map_of (sessionLastAccess (evictStaleSessions now s)) sid = None"
      using r by (simp add: evictStaleSessions_def)
    show "\<forall>t. map_of (transports s) sid = Some t \<longrightarrow>
            t \<in> set (closedTransports (evictStaleSessions now s))"
      using r by (auto simp: evictStaleSessions_def)
  }
  {
    assume fresh: "\<not> lastAccess < ?c"
    have "list_all (\<lambda>(k, la). k = sid \<longrightarrow> \<not> la < ?c) (sessionLastAccess s)"
      unfolding list_all_iff
    proof (clarify)
      fix la assume "(sid, la) \<in> set (sessionLastAccess s)" and "la < ?c"
      then have "la = lastAccess" using dist assms(2) by simp
      then show False using fresh \<open>la < ?c\<close> by simp
    qed
    note r = evict_loop_retains [OF assms(1) this]
    show "map_of (transports (evictStaleSessions now s)) sid = map_of (transports s) sid"
      using r by (simp add: evictStaleSessions_def)
    show "map_of (sessionLastAccess (evictStaleSessions now s)) sid = Some lastAccess"
      using r assms(2) by (simp add: evictStaleSessions_def)
  }
qed

text \<open>
  Two sessions at time 2000000: the first was last accessed at 100000 and is evicted, the
  second at 1900000 and is kept.
\<close>

theorem C6_sweep_evicts_stale_keeps_fresh_witness:
  "wf_state two_sessions \<and>
   map_of (sessionLastAccess two_sessions) sid1 = Some 100000 \<and>
   100000 < 2000000 - SESSION_TTL_MS \<and>
   map_of (transports two_sessions) sid1 = Some (Transport (Some sid1)) \<and>
   map_of (transports (evictStaleSessions 2000000 two_sessions)) sid1 = None \<and>
   map_of (sessionLastAccess (evictStaleSessions 2000000 two_sessions)) sid1 = None \<and>
   Transport (Some sid1) \<in> set (closedTransports (evictStaleSessions 2000000 two_sessions)) \<and>
   map_of (sessionLastAccess two_sessions) sid2 = Some 1900000 \<and>
   \<not> 1900000 < 2000000 - SESSION_TTL_MS \<and>
   map_of (transports (evictStaleSessions 2000000 two_sessions)) sid2 =
     Some (Transport (Some sid2)) \<and>
   map_of (sessionLastAccess (evictStaleSessions 2000000 two_sessions)) sid2 = Some 1900000"
proof -
  have w: "wf_state two_sessions"
    using sid_neq by (simp add: wf_state_def two_sessions_def)
  have a1: "map_of (sessionLastAccess two_sessions) sid1 = Some 100000"
    by (simp add: two_sessions_def)
  have a2: "map_of (sessionLastAccess two_sessions) sid2 = Some 1900000"
    using sid_neq by (simp add: two_sessions_def)
  have t1: "map_of (transports two_sessions) sid1 = Some (Transport (Some sid1))"
    by (simp add: two_sessions_def)
  have t2: "map_of (transports two_sessions) sid2 = Some (Transport (Some sid2))"
    using sid_neq by (simp add: two_sessions_def)
  have stale: "(100000::int) < 2000000 - SESSION_TTL_MS" by (simp add: SESSION_TTL_MS_def)
  have fresh: "\<not> (1900000::int) < 2000000 - SESSION_TTL_MS" by (simp add: SESSION_TTL_MS_def)
  show ?thesis
    using C6_sweep_evicts_stale_keeps_fresh [OF w a1, of 2000000] C6_sweep_evicts_stale_keeps_fresh [OF w a2, of 2000000] w a1 a2 t1 t2 stale fresh
    by simp
qed

section \<open>Where the auth context is stored\<close>

text \<open>
  Claim C7 says that the resolved auth context is attached to the request and not shared.
  The middleware stores it in \<open>req.app.locals.auth\<close>, the application's one \<open>locals\<close>
  object: after request A and then request B have passed the middleware, what request A
  reads there is the context of B's client.
\<close>

theorem C7_auth_context_shared_by_requests:
  "fst (authMiddleware id ''http://localhost:3000'' auth_env0 request_A no_locals) = Next \<and>
   auth_seen_by request_A
     (snd (authMiddleware id ''http://localhost:3000'' auth_env0 request_A no_locals)) = Some info_A \<and>
   fst (authMiddleware id ''http://localhost:3000'' auth_env0 request_B
          (snd (authMiddleware id ''http://localhost:3000'' auth_env0 request_A no_locals))) = Next \<and>
   auth_seen_by request_A
     (snd (authMiddleware id ''http://localhost:3000'' auth_env0 request_B
            (snd (authMiddleware id ''http://localhost:3000'' auth_env0 request_A no_locals))))
     = Some info_B \<and>
   clientId info_B \<noteq> clientId info_A"
  by (simp add: mw_A mw_B auth_seen_by_def no_locals_def info_A_def info_B_def)

section \<open>The bearer challenge\<close>

text \<open>
  Claim C8. A request to a route protected by \<open>authMiddleware\<close> whose \<open>Authorization\<close>
  header is absent or does not start with \<open>Bearer \<close> is answered with HTTP 401 and a
  \<open>WWW-Authenticate\<close> header containing \<open>resource_metadata="\<dots>"\<close> with the serialised URL
  of \<open>/.well-known/oauth-protected-resource/mcp\<close> under the server URL.
\<close>

theorem C8_missing_bearer_challenge:
  assumes "authorization req = None \<or>
           (\<exists>h. authorization req = Some h \<and> \<not> prefix ''Bearer '' h)"
  shows "\<exists>hdr. authMiddleware href SERVER_URL a req locals =
           (Rejected 401 hdr ''invalid_token'' ''Missing Authorization header'', locals) \<and>
         sublist ('', resource_metadata='' @ dquote @
                    href (SERVER_URL @ ''/.well-known/oauth-protected-resource/mcp'') @ dquote) hdr"
proof -
  have "\<not> startsWithBearer (authorization req)"
    using assms by (auto simp: startsWithBearer_def)
  moreover have "resourceMetadataUrl (authMiddleware_options href SERVER_URL) =
      Some (href (SERVER_URL @ ''/.well-known/oauth-protected-resource/mcp''))"
    by (simp add: authMiddleware_options_def)
  ultimately show ?thesis
    unfolding authMiddleware_def by (rule missing_bearer_rejected [rotated])
qed

text \<open>A request without an \<open>Authorization\<close> header, and the whole challenge header.\<close>

theorem C8_missing_bearer_challenge_witness:
  "authorization request_anonymous = None \<and>
   authMiddleware id ''http://localhost:3000'' auth_env0 request_anonymous no_locals =
     (Rejected 401
        (''Bearer error='' @ dquote @ ''invalid_token'' @ dquote @ '', error_description='' @ dquote @
         ''Missing Authorization header'' @ dquote @ '', resource_metadata='' @ dquote @
         ''http://localhost:3000/.well-known/oauth-protected-resource/mcp'' @ dquote)
        ''invalid_token'' ''Missing Authorization header'', no_locals)"
proof -
  have h: "authorization request_anonymous = None" by (simp add: request_anonymous_def)
  then have "authorization request_anonymous = None \<or>
           (\<exists>h. authorization request_anonymous = Some h \<and> \<not> prefix ''Bearer '' h)" by simp
  from C8_missing_bearer_challenge [OF this, of id "''http://localhost:3000''" auth_env0 no_locals]
  have "\<exists>hdr. authMiddleware id ''http://localhost:3000'' auth_env0 request_anonymous no_locals =
           (Rejected 401 hdr ''invalid_token'' ''Missing Authorization header'', no_locals)"
    by blast
  moreover have "authMiddleware id ''http://localhost:3000'' auth_env0 request_anonymous no_locals =
     (Rejected 401
        (''Bearer error='' @ dquote @ ''invalid_token'' @ dquote @ '', error_description='' @ dquote @
         ''Missing Authorization header'' @ dquote @ '', resource_metadata='' @ dquote @
         ''http://localhost:3000/.well-known/oauth-protected-resource/mcp'' @ dquote)
        ''invalid_token'' ''Missing Authorization header'', no_locals)"
    by (simp add: authMiddleware_def authMiddleware_options_def requireBearerAuth_def
        request_anonymous_def startsWithBearer_def buildWwwAuth_def)
  ultimately show ?thesis using h by simp
qed

section \<open>Protected resource metadata paths\<close>

text \<open>
  Claim C9. A GET of \<open>/.well-known/oauth-protected-resource/mcp\<close> and a GET of
  \<open>/.well-known/oauth-protected-resource\<close> are answered alike, whatever the handlers
  answer: both paths are routed to the same chain, \<open>cors()\<close> followed by the one
  \<open>prmHandler\<close>.
\<close>

theorem C9_prm_paths_same_document:
  "serve answer http_app GET ''/.well-known/oauth-protected-resource/mcp'' =
     serve answer http_app GET ''/.well-known/oauth-protected-resource'' \<and>
   serve answer http_app GET ''/.well-known/oauth-protected-resource'' =
     run_chain answer [Cors, PrmHandler]"
proof -
  have a: "find_route http_app GET ''/.well-known/oauth-protected-resource/mcp'' =
     Some (Only GET, Exact ''/.well-known/oauth-protected-resource/mcp'', [Cors, PrmHandler])"
    by (simp add: http_app_def mountAuthRoutes_def app_route_def app_all_def find_route_def
        Let_def prefix_def)
  have b: "find_route http_app GET ''/.well-known/oauth-protected-resource'' =
     Some (Only GET, Exact ''/.well-known/oauth-protected-resource'', [Cors, PrmHandler])"
    by (simp add: http_app_def mountAuthRoutes_def app_route_def app_all_def find_route_def
        Let_def prefix_def)
  show ?thesis by (simp add: serve_def a b)
qed

text \<open>With a metadata handler answering a fixed document, both paths return it.\<close>

theorem C9_prm_paths_same_document_witness:
  "serve prm_only http_app GET ''/.well-known/oauth-protected-resource/mcp'' = Some ''prm-document'' \<and>
   serve prm_only http_app GET ''/.well-known/oauth-protected-resource'' = Some ''prm-document''"
  using C9_prm_paths_same_document [of prm_only] by (simp add: prm_only_def)

section \<open>Key sets of the two maps\<close>

text \<open>
  Claim C10 says that the two maps always hold the same session ids. The lemmas above show
  that initialization, \<open>onclose\<close>, the sweep, shutdown, POST and GET keep it so. DELETE /mcp
  removes the id from \<open>sessionLastAccess\<close> itself and leaves \<open>transports\<close> to the transport's
  \<open>onclose\<close>: when the transport answers the DELETE without closing, the id stays in
  \<open>transports\<close> only.
\<close>

theorem C10_delete_leaves_transport_without_last_access:
  "wf_state one_session \<and> same_keys one_session \<and>
   delete_mcp (request_with (Some sid1) False) env_rejected one_session =
     (Some (FromTransport 400),
      \<lparr>transports = [(sid1, Transport (Some sid1))], sessionLastAccess = [],
       closedTransports = []\<rparr>) \<and>
   \<not> same_keys (snd (delete_mcp (request_with (Some sid1) False) env_rejected one_session))"
proof -
  have w: "wf_state one_session" by (simp add: wf_state_def one_session_def)
  have k: "same_keys one_session" by (simp add: same_keys_def one_session_def)
  have ne: "sid1 \<noteq> []" by (simp add: sid1_def)
  have d: "delete_mcp (request_with (Some sid1) False) env_rejected one_session =
     (Some (FromTransport 400),
      \<lparr>transports = [(sid1, Transport (Some sid1))], sessionLastAccess = [],
       closedTransports = []\<rparr>)"
    using sid1_valid ne
    by (simp add: delete_mcp_def request_with_def env_rejected_def one_session_def map_has_def
        plain_reply_def)
  show ?thesis using w k by (simp add: d same_keys_def)
qed

text \<open>
  The request above passes all three guards of the DELETE handler, and afterwards
  \<open>transports\<close> has the session id while \<open>sessionLastAccess\<close> has not.
\<close>

theorem C10_delete_leaves_transport_without_last_access_witness:
  "truthy (mcpSessionId (request_with (Some sid1) False)) \<and>
   isValidSessionId (as_string (mcpSessionId (request_with (Some sid1) False))) \<and>
   map_has (transports one_session) (as_string (mcpSessionId (request_with (Some sid1) False))) \<and>
   map_has (transports (snd (delete_mcp (request_with (Some sid1) False) env_rejected one_session)))
     sid1 \<and>
   \<not> map_has
       (sessionLastAccess (snd (delete_mcp (request_with (Some sid1) False) env_rejected one_session)))
       sid1"
proof -
  have ne: "sid1 \<noteq> []" by (simp add: sid1_def)
  show ?thesis
    using C10_delete_leaves_transport_without_last_access sid1_valid ne
    by (simp add: request_with_def one_session_def map_has_def)
qed

end
